theory Spec2Isabelle
  imports Complex_Main
begin

section \<open>Numbers of the program\<close>

text \<open>
  The arguments of \<open>calculate_new_boiling_point\<close> are numpy values in \<open>main\<close>: the
  pressures are an \<open>ndarray\<close> made by \<open>np.linspace\<close>, the three compound properties
  are numpy scalars read out of a pandas row. On such values a division by zero, an
  overflow and a logarithm outside its domain raise nothing: they give \<open>inf\<close>,
  \<open>-inf\<close> or \<open>nan\<close> (with a warning). A value is therefore a finite number or one
  of these three.

  Finite values are real numbers. A result whose magnitude exceeds the largest binary64
  number overflows to the infinity of its sign; inside that range the arithmetic is
  exact, so the rounding of binary64 is not part of this model, and the statements
  proved below about values are stated up to a tolerance or away from the points where
  rounding decides. Zero has no sign here; it is read as \<open>+0.0\<close>, which is what an
  addition or subtraction with an exact zero result gives in the default rounding mode.
\<close>

datatype npfloat = Fin real | PInf | NInf | NaN

fun isfinite :: "npfloat \<Rightarrow> bool" where
  "isfinite (Fin x) = True"
| "isfinite PInf = False"
| "isfinite NInf = False"
| "isfinite NaN = False"

text \<open>The largest finite binary64 number, \<open>(2 - 2^-52) * 2^1023\<close>, and overflow.\<close>

definition dbl_max :: real where
  "dbl_max = (2 - 1 / 2 ^ 52) * 2 ^ 1023"

definition fin :: "real \<Rightarrow> npfloat" where
  "fin x = (if dbl_max < x then PInf else if x < - dbl_max then NInf else Fin x)"

fun np_neg :: "npfloat \<Rightarrow> npfloat" where
  "np_neg (Fin x) = Fin (- x)"
| "np_neg PInf = NInf"
| "np_neg NInf = PInf"
| "np_neg NaN = NaN"

fun np_add :: "npfloat \<Rightarrow> npfloat \<Rightarrow> npfloat" where
  "np_add (Fin x) (Fin y) = fin (x + y)"
| "np_add (Fin x) PInf = PInf"
| "np_add (Fin x) NInf = NInf"
| "np_add PInf (Fin y) = PInf"
| "np_add PInf PInf = PInf"
| "np_add PInf NInf = NaN"
| "np_add NInf (Fin y) = NInf"
| "np_add NInf PInf = NaN"
| "np_add NInf NInf = NInf"
| "np_add NaN b = NaN"
| "np_add a NaN = NaN"

definition np_sub :: "npfloat \<Rightarrow> npfloat \<Rightarrow> npfloat" where
  "np_sub a b = np_add a (np_neg b)"

text \<open>The sign of an infinite product; zero times infinity is \<open>nan\<close>.\<close>

definition inf_of_sign :: "real \<Rightarrow> npfloat" where
  "inf_of_sign s = (if 0 < s then PInf else if s < 0 then NInf else NaN)"

fun np_mul :: "npfloat \<Rightarrow> npfloat \<Rightarrow> npfloat" where
  "np_mul (Fin x) (Fin y) = fin (x * y)"
| "np_mul (Fin x) PInf = inf_of_sign x"
| "np_mul (Fin x) NInf = inf_of_sign (- x)"
| "np_mul PInf (Fin y) = inf_of_sign y"
| "np_mul NInf (Fin y) = inf_of_sign (- y)"
| "np_mul PInf PInf = PInf"
| "np_mul PInf NInf = NInf"
| "np_mul NInf PInf = NInf"
| "np_mul NInf NInf = PInf"
| "np_mul NaN b = NaN"
| "np_mul a NaN = NaN"

text \<open>
  Division: a finite nonzero number over zero is an infinity of the number's sign, zero
  over zero and infinity over infinity are \<open>nan\<close>, a finite number over an infinity is
  zero.
\<close>

fun np_div :: "npfloat \<Rightarrow> npfloat \<Rightarrow> npfloat" where
  "np_div (Fin x) (Fin y) = (if y \<noteq> 0 then fin (x / y) else inf_of_sign x)"
| "np_div (Fin x) PInf = Fin 0"
| "np_div (Fin x) NInf = Fin 0"
| "np_div PInf (Fin y) = (if 0 \<le> y then PInf else NInf)"
| "np_div NInf (Fin y) = (if 0 \<le> y then NInf else PInf)"
| "np_div PInf PInf = NaN"
| "np_div PInf NInf = NaN"
| "np_div NInf PInf = NaN"
| "np_div NInf NInf = NaN"
| "np_div NaN b = NaN"
| "np_div a NaN = NaN"

text \<open>\<open>np.log\<close>: \<open>-inf\<close> at zero, \<open>nan\<close> below it.\<close>

fun np_log :: "npfloat \<Rightarrow> npfloat" where
  "np_log (Fin x) = (if 0 < x then Fin (ln x) else if x = 0 then NInf else NaN)"
| "np_log PInf = PInf"
| "np_log NInf = NaN"
| "np_log NaN = NaN"

text \<open>
  \<open>np.clip(a, a_min, None)\<close> is \<open>np.maximum(a, a_min)\<close>, which hands a \<open>nan\<close>
  through.
\<close>

fun np_clip_min :: "npfloat \<Rightarrow> npfloat \<Rightarrow> npfloat" where
  "np_clip_min (Fin x) (Fin y) = Fin (max x y)"
| "np_clip_min (Fin x) PInf = PInf"
| "np_clip_min (Fin x) NInf = Fin x"
| "np_clip_min PInf (Fin y) = PInf"
| "np_clip_min PInf PInf = PInf"
| "np_clip_min PInf NInf = PInf"
| "np_clip_min NInf (Fin y) = Fin y"
| "np_clip_min NInf PInf = PInf"
| "np_clip_min NInf NInf = NInf"
| "np_clip_min NaN b = NaN"
| "np_clip_min a NaN = NaN"


section \<open>The equation: \<open>calculate_new_boiling_point\<close>\<close>

text \<open>
  \<^verbatim>\<open>
  def calculate_new_boiling_point(P, P2, boiling_point, H_vap):
      R = 8.314e-3
      T2_K = boiling_point + 273.15
      P_safe = np.clip(P, 1e-9, None)
      T1_K = 1 / ((1 / T2_K) - (R / H_vap) * np.log(P_safe / P2))
      return T1_K - 273.15
  \<close>
\<close>

definition calculate_new_boiling_point ::
  "npfloat \<Rightarrow> npfloat \<Rightarrow> npfloat \<Rightarrow> npfloat \<Rightarrow> npfloat" where
  "calculate_new_boiling_point P P2 boiling_point H_vap =
     (let R = Fin (8.314 / 1000);
          T2_K = np_add boiling_point (Fin 273.15);
          P_safe = np_clip_min P (Fin (1 / 10 ^ 9));
          T1_K = np_div (Fin 1)
                   (np_sub (np_div (Fin 1) T2_K)
                           (np_mul (np_div R H_vap) (np_log (np_div P_safe P2))))
      in np_sub T1_K (Fin 273.15))"

text \<open>
  The reference formula of the specification, over the real numbers:
  \<open>T2_K = T2_celsius + 273.15\<close>, \<open>R = 8.314e-3\<close>, the pressure clamped to the floor
  \<open>1e-9\<close>, \<open>T1_K = 1 / ((1/T2_K) - (R/H_vap) * ln (P_clamped / P2))\<close>, and the result
  \<open>T1_K - 273.15\<close>. It is written from the specification, to be compared with the code.
\<close>

definition R_const :: real where
  "R_const = 8.314 / 1000"

definition clamp :: "real \<Rightarrow> real" where
  "clamp P = max P (1 / 10 ^ 9)"

definition bracket :: "real \<Rightarrow> real \<Rightarrow> real \<Rightarrow> real \<Rightarrow> real" where
  "bracket P P2 T2_celsius H_vap =
     1 / (T2_celsius + 273.15) - (R_const / H_vap) * ln (clamp P / P2)"

definition clausius_clapeyron :: "real \<Rightarrow> real \<Rightarrow> real \<Rightarrow> real \<Rightarrow> real" where
  "clausius_clapeyron P P2 T2_celsius H_vap = 1 / bracket P P2 T2_celsius H_vap - 273.15"

text \<open>
  A working range of the inputs, wide around what the program is run on: pressures up
  to \<open>1e12\<close> torr, a reference pressure between \<open>1e-3\<close> and \<open>1e12\<close> torr, an
  enthalpy of at least \<open>1e-2\<close> kJ/mol, and an absolute reference temperature between
  \<open>1\<close> and \<open>1e4\<close> K. Inside it no intermediate result overflows.
\<close>

definition working_range :: "real \<Rightarrow> real \<Rightarrow> real \<Rightarrow> real \<Rightarrow> bool" where
  "working_range P P2 T2_celsius H_vap \<longleftrightarrow>
     P \<le> 10 ^ 12 \<and> 1 / 10 ^ 3 \<le> P2 \<and> P2 \<le> 10 ^ 12 \<and> 1 / 10 ^ 2 \<le> H_vap \<and>
     1 \<le> T2_celsius + 273.15 \<and> T2_celsius + 273.15 \<le> 10 ^ 4"

section \<open>The compound table: \<open>get_compound_properties\<close>\<close>

text \<open>
  The table read by \<open>load_data\<close> is a pandas DataFrame; its rows, in the order of the
  file, carry the four columns the program reads: \<open>Item\<close>,
  \<open>Vap Enthalpy (kJ/mol)\<close>, \<open>T2 (C)\<close> and \<open>P2 (torr)\<close>.
\<close>

datatype py_error = IndexError | ValueError

record row =
  Item :: string
  Vap_Enthalpy :: npfloat
  T2_C :: npfloat
  P2_torr :: npfloat

type_synonym dataframe = "row list"

text \<open>
  \<^verbatim>\<open>
  def get_compound_properties(df, item_name):
      data_row = df[df['Item'] == item_name].iloc[0]
      return data_row['Vap Enthalpy (kJ/mol)'], data_row['T2 (C)'], data_row['P2 (torr)']
  \<close>
  The boolean mask keeps the rows whose \<open>Item\<close> equals \<open>item_name\<close>, in order;
  \<open>.iloc[0]\<close> takes the first of them and raises \<open>IndexError\<close> when there is none.
\<close>

definition get_compound_properties ::
  "dataframe \<Rightarrow> string \<Rightarrow> py_error + (npfloat \<times> npfloat \<times> npfloat)" where
  "get_compound_properties df item_name =
     (case filter (\<lambda>r. Item r = item_name) df of
        [] \<Rightarrow> Inl IndexError
      | data_row # _ \<Rightarrow> Inr (Vap_Enthalpy data_row, T2_C data_row, P2_torr data_row))"

section \<open>The curve: sampling in \<open>main\<close>\<close>

text \<open>
  \<open>np.linspace(start, stop, num)\<close> with its default \<open>endpoint=True\<close>: a negative
  \<open>num\<close> raises \<open>ValueError\<close>; otherwise the indices \<open>0, ..., num - 1\<close> are
  scaled by the step \<open>(stop - start) / (num - 1)\<close> and shifted by \<open>start\<close>, and for
  \<open>num > 1\<close> the last sample is overwritten with \<open>stop\<close>. The two pressures come
  from a slider and are finite numbers.
\<close>

definition linspace :: "real \<Rightarrow> real \<Rightarrow> int \<Rightarrow> py_error + real list" where
  "linspace start stop num =
     (if num < 0 then Inl ValueError
      else
        let dv = num - 1;
            delta = stop - start;
            y = map real [0..<nat num];
            y = (if 0 < dv then
                   (let step = delta / of_int dv
                    in if step = 0 then map (\<lambda>v. v / of_int dv * delta) y
                       else map (\<lambda>v. v * step) y)
                 else map (\<lambda>v. v * delta) y);
            y = map (\<lambda>v. v + start) y;
            y = (if 1 < num then y[nat num - 1 := stop] else y)
        in Inr y)"

text \<open>
  The curve of \<open>main\<close>:
  \<^verbatim>\<open>
  P_values = np.linspace(pressure_range[0], pressure_range[1], 1000)
  T_values = calculate_new_boiling_point(P_values, p2_ref, bp, h_vap_ref)
  df_plot = pd.DataFrame({'P': P_values, 'T': T_values})
  \<close>
  The equation is applied to the array of pressures element by element. The number of
  samples, the literal \<open>1000\<close> in \<open>main\<close>, is the parameter \<open>sampleCount\<close> of
  \<open>generateCurve\<close>; \<open>df_plot\<close> is the curve \<open>main\<close> builds.
\<close>

definition generateCurve ::
  "real \<Rightarrow> real \<Rightarrow> int \<Rightarrow> npfloat \<times> npfloat \<times> npfloat \<Rightarrow> py_error + (real \<times> npfloat) list"
  where
  "generateCurve pressureMin pressureMax sampleCount props =
     (case props of (h_vap_ref, bp, p2_ref) \<Rightarrow>
        (case linspace pressureMin pressureMax sampleCount of
           Inl e \<Rightarrow> Inl e
         | Inr P_values \<Rightarrow>
             (let T_values =
                    map (\<lambda>P. calculate_new_boiling_point (Fin P) p2_ref bp h_vap_ref) P_values
              in Inr (zip P_values T_values))))"

definition df_plot ::
  "dataframe \<Rightarrow> string \<Rightarrow> real \<times> real \<Rightarrow> py_error + (real \<times> npfloat) list" where
  "df_plot df_compounds selected_compound pressure_range =
     (case get_compound_properties df_compounds selected_compound of
        Inl e \<Rightarrow> Inl e
      | Inr props \<Rightarrow> generateCurve (fst pressure_range) (snd pressure_range) 1000 props)"


section \<open>Properties of the equation\<close>

lemma dbl_max_lower: "10 ^ 308 \<le> dbl_max"
  by (simp add: dbl_max_def)

lemma dbl_max_upper: "dbl_max < 10 ^ 309"
  by (simp add: dbl_max_def)

lemma fin_in_range: "\<bar>x\<bar> \<le> dbl_max \<Longrightarrow> fin x = Fin x"
  by (auto simp: fin_def)

lemma fin_overflow: "dbl_max < x \<Longrightarrow> fin x = PInf"
  by (simp add: fin_def)

lemma fin_small: "\<bar>x\<bar> \<le> 10 ^ 308 \<Longrightarrow> fin x = Fin x"
  using dbl_max_lower by (intro fin_in_range) linarith

lemma clamp_pos: "0 < clamp P"
  by (simp add: clamp_def max_def)

lemma clamp_floor: "P \<le> 0 \<Longrightarrow> clamp P = 1 / 10 ^ 9"
  by (simp add: clamp_def max_def)



lemma calculate_value:
  assumes "0 < P2" and "0 < H_vap"
    and q: "clamp P / P2 \<le> dbl_max"
    and k: "R_const / H_vap \<le> dbl_max"
    and kl: "\<bar>(R_const / H_vap) * ln (clamp P / P2)\<bar> \<le> dbl_max"
    and t: "T2 + 273.15 \<noteq> 0" "\<bar>T2 + 273.15\<bar> \<le> dbl_max" "\<bar>1 / (T2 + 273.15)\<bar> \<le> dbl_max"
    and d: "bracket P P2 T2 H_vap \<noteq> 0" "\<bar>bracket P P2 T2 H_vap\<bar> \<le> dbl_max"
    and i: "\<bar>1 / bracket P P2 T2 H_vap\<bar> \<le> dbl_max"
    and r: "\<bar>clausius_clapeyron P P2 T2 H_vap\<bar> \<le> dbl_max"
  shows "calculate_new_boiling_point (Fin P) (Fin P2) (Fin T2) (Fin H_vap) =
           Fin (clausius_clapeyron P P2 T2 H_vap)"
proof -
  have s1: "np_add (Fin T2) (Fin 273.15) = Fin (T2 + 273.15)"
    using t(2) by (simp add: fin_in_range)
  have s2: "np_clip_min (Fin P) (Fin (1 / 10 ^ 9)) = Fin (clamp P)"
    by (simp add: clamp_def)
  have qpos: "0 < clamp P / P2"
    using assms(1) clamp_pos by simp
  then have s3: "np_div (Fin (clamp P)) (Fin P2) = Fin (clamp P / P2)"
    using assms(1) q by (simp add: fin_in_range)
  have s4: "np_log (Fin (clamp P / P2)) = Fin (ln (clamp P / P2))"
    using qpos by simp
  have kpos: "0 < R_const / H_vap"
    using assms(2) by (simp add: R_const_def)
  then have s5: "np_div (Fin R_const) (Fin H_vap) = Fin (R_const / H_vap)"
    using assms(2) k by (simp add: fin_in_range)
  have s6: "np_mul (Fin (R_const / H_vap)) (Fin (ln (clamp P / P2))) =
              Fin ((R_const / H_vap) * ln (clamp P / P2))"
    using kl by (simp add: fin_in_range)
  have s7: "np_div (Fin 1) (Fin (T2 + 273.15)) = Fin (1 / (T2 + 273.15))"
    using t(1,3) by (simp add: fin_in_range)
  have s8: "np_sub (Fin (1 / (T2 + 273.15))) (Fin ((R_const / H_vap) * ln (clamp P / P2))) =
              Fin (bracket P P2 T2 H_vap)"
    using d(2) by (simp add: np_sub_def bracket_def fin_in_range)
  have s9: "np_div (Fin 1) (Fin (bracket P P2 T2 H_vap)) = Fin (1 / bracket P P2 T2 H_vap)"
    using d(1) i by (simp add: fin_in_range)
  have s10: "np_sub (Fin (1 / bracket P P2 T2 H_vap)) (Fin 273.15) =
               Fin (clausius_clapeyron P P2 T2 H_vap)"
    using r by (simp add: np_sub_def clausius_clapeyron_def fin_in_range)
  have "calculate_new_boiling_point (Fin P) (Fin P2) (Fin T2) (Fin H_vap) =
          np_sub (np_div (Fin 1)
            (np_sub (np_div (Fin 1) (np_add (Fin T2) (Fin 273.15)))
               (np_mul (np_div (Fin R_const) (Fin H_vap))
                  (np_log (np_div (np_clip_min (Fin P) (Fin (1 / 10 ^ 9))) (Fin P2))))))
            (Fin 273.15)"
    by (simp only: calculate_new_boiling_point_def Let_def R_const_def)
  then show ?thesis
    by (simp only: s1 s2 s3 s4 s5 s6 s7 s8 s9 s10)
qed

lemma ln_abs_bound:
  fixes x :: real
  assumes "0 < x"
  shows "\<bar>ln x\<bar> \<le> x + 1 / x"
proof -
  have up: "ln x \<le> x"
    using ln_le_minus_one [OF assms] by simp
  have "0 < 1 / x"
    using assms by simp
  then have "ln (1 / x) \<le> 1 / x"
    using ln_le_minus_one [of "1 / x"] by simp
  then have lo: "- (1 / x) \<le> ln x"
    using assms by (simp add: ln_div)
  have "0 < 1 / x"
    using assms by simp
  with up lo assms show ?thesis
    by linarith
qed

lemma quotient_bounds:
  assumes "working_range P P2 T2 H_vap"
  shows "0 < clamp P / P2" and "clamp P / P2 \<le> 10 ^ 15" and "1 / (clamp P / P2) \<le> 10 ^ 21"
proof -
  from assms have P: "P \<le> 10 ^ 12" and lo: "1 / 10 ^ 3 \<le> P2" and hi: "P2 \<le> 10 ^ 12"
    by (simp_all add: working_range_def)
  have p2: "0 < P2"
    using lo by (rule less_le_trans [rotated]) simp
  have c1: "clamp P \<le> 10 ^ 12"
    using P by (simp add: clamp_def)
  have c2: "1 / 10 ^ 9 \<le> clamp P"
    by (simp add: clamp_def)
  have c0: "0 < clamp P"
    by (rule clamp_pos)
  show "0 < clamp P / P2"
    using c0 p2 by simp
  have "clamp P / P2 \<le> 10 ^ 12 / (1 / 10 ^ 3)"
    using c1 c0 lo by (intro frac_le) simp_all
  then show "clamp P / P2 \<le> 10 ^ 15"
    by simp
  have "P2 / clamp P \<le> 10 ^ 12 / (1 / 10 ^ 9)"
    using hi p2 c2 by (intro frac_le) simp_all
  then show "1 / (clamp P / P2) \<le> 10 ^ 21"
    by simp
qed

lemma calculate_in_working_range:
  assumes w: "working_range P P2 T2 H_vap"
    and m: "1 / 10 ^ 6 \<le> \<bar>bracket P P2 T2 H_vap\<bar>"
  shows "calculate_new_boiling_point (Fin P) (Fin P2) (Fin T2) (Fin H_vap) =
           Fin (clausius_clapeyron P P2 T2 H_vap)"
proof -
  let ?q = "clamp P / P2"
  let ?k = "R_const / H_vap"
  let ?a = "1 / (T2 + 273.15)"
  let ?b = "bracket P P2 T2 H_vap"
  from w have lo: "1 / 10 ^ 3 \<le> P2" and h: "1 / 10 ^ 2 \<le> H_vap"
    and t1: "1 \<le> T2 + 273.15" and t2: "T2 + 273.15 \<le> 10 ^ 4"
    by (simp_all add: working_range_def)
  have p2: "0 < P2"
    using lo by (rule less_le_trans [rotated]) simp
  have hp: "0 < H_vap"
    using h by (rule less_le_trans [rotated]) simp
  note qb = quotient_bounds [OF w]
  have big: "(10::real) ^ 22 \<le> dbl_max"
    using dbl_max_lower by (rule order_trans [rotated]) simp
  have k0: "0 \<le> ?k"
    using hp by (simp add: R_const_def)
  have "?k \<le> R_const / (1 / 10 ^ 2)"
    using h by (intro divide_left_mono) (simp_all add: R_const_def)
  then have k1: "?k \<le> 1"
    by (simp add: R_const_def)
  have l: "\<bar>ln ?q\<bar> \<le> 10 ^ 15 + 10 ^ 21"
    using ln_abs_bound [OF qb(1)] qb(2,3) by linarith
  have "\<bar>?k * ln ?q\<bar> = \<bar>?k\<bar> * \<bar>ln ?q\<bar>"
    by (rule abs_mult)
  also have "\<dots> = ?k * \<bar>ln ?q\<bar>"
    using k0 by (simp only: abs_of_nonneg)
  also have "\<dots> \<le> 1 * (10 ^ 15 + 10 ^ 21)"
    using k0 k1 l by (intro mult_mono) simp_all
  finally have kl: "\<bar>?k * ln ?q\<bar> \<le> 10 ^ 15 + 10 ^ 21"
    by simp
  have a0: "0 < ?a" and a1: "?a \<le> 1"
    using t1 by simp_all
  have "\<bar>?b\<bar> \<le> \<bar>?a\<bar> + \<bar>?k * ln ?q\<bar>"
    unfolding bracket_def by (rule abs_triangle_ineq4)
  with a0 a1 kl have b1: "\<bar>?b\<bar> \<le> 1 + (10 ^ 15 + 10 ^ 21)"
    by linarith
  have b0: "?b \<noteq> 0"
    using m by auto
  have "\<bar>1 / ?b\<bar> = 1 / \<bar>?b\<bar>"
    by simp
  also have "\<dots> \<le> 1 / (1 / 10 ^ 6)"
    using m by (intro divide_left_mono) simp_all
  finally have i: "\<bar>1 / ?b\<bar> \<le> 10 ^ 6"
    by simp
  have "\<bar>clausius_clapeyron P P2 T2 H_vap\<bar> \<le> \<bar>1 / ?b\<bar> + \<bar>273.15\<bar>"
    unfolding clausius_clapeyron_def by (rule abs_triangle_ineq4)
  with i have r: "\<bar>clausius_clapeyron P P2 T2 H_vap\<bar> \<le> 10 ^ 6 + 273.15"
    by simp
  have le_big: "x \<le> dbl_max" if "x \<le> c" and "c \<le> 10 ^ 22" for x c :: real
    using that big by linarith
  show ?thesis
  proof (rule calculate_value [OF p2 hp])
    show "?q \<le> dbl_max"
      using qb(2) by (rule le_big) simp
    show "?k \<le> dbl_max"
      using k1 by (rule le_big) simp
    show "\<bar>?k * ln ?q\<bar> \<le> dbl_max"
      using kl by (rule le_big) simp
    show "T2 + 273.15 \<noteq> 0"
      using t1 by simp
    have "\<bar>T2 + 273.15\<bar> \<le> 10 ^ 4"
      using t1 t2 by simp
    then show "\<bar>T2 + 273.15\<bar> \<le> dbl_max"
      by (rule le_big) simp
    have "\<bar>?a\<bar> \<le> 1"
      using a0 a1 by simp
    then show "\<bar>?a\<bar> \<le> dbl_max"
      by (rule le_big) simp
    show "?b \<noteq> 0"
      by (rule b0)
    show "\<bar>?b\<bar> \<le> dbl_max"
      using b1 by (rule le_big) simp
    show "\<bar>1 / ?b\<bar> \<le> dbl_max"
      using i by (rule le_big) simp
    show "\<bar>clausius_clapeyron P P2 T2 H_vap\<bar> \<le> dbl_max"
      using r by (rule le_big) simp
  qed
qed



lemma bracket_below_reference:
  assumes "0 < P2" and "0 < H_vap" and "clamp P \<le> P2"
  shows "1 / (T2 + 273.15) \<le> bracket P P2 T2 H_vap"
proof -
  have "0 < clamp P / P2" and "clamp P / P2 \<le> 1"
    using assms clamp_pos by simp_all
  then have l: "ln (clamp P / P2) \<le> 0"
    by simp
  have r: "0 \<le> R_const / H_vap"
    using assms by (simp add: R_const_def)
  from r l have "(R_const / H_vap) * ln (clamp P / P2) \<le> 0"
    by (rule mult_nonneg_nonpos)
  then show ?thesis
    unfolding bracket_def by linarith
qed












lemma enthalpy_overflow: "np_div (Fin (8.314 / 1000)) (Fin (1 / 10 ^ 320)) = PInf"
proof -
  have "dbl_max < 10 ^ 309"
    by (rule dbl_max_upper)
  also have "(10::real) ^ 309 \<le> 10 ^ 317"
    by (rule power_increasing) simp_all
  also have "\<dots> \<le> 8.314 * 10 ^ 317"
    by simp
  also have "\<dots> = 8.314 / 1000 * 10 ^ (3 + 317)"
    by (simp only: power_add) simp
  finally have "dbl_max < 8.314 / 1000 / (1 / 10 ^ (3 + 317))"
    by (simp only: divide_divide_eq_right mult_1)
  then have "fin (8.314 / 1000 / (1 / 10 ^ (3 + 317))) = PInf"
    by (rule fin_overflow)
  moreover have "(3::nat) + 317 = 320"
    by simp
  moreover have "(1::real) / 10 ^ 320 \<noteq> 0"
    by simp
  ultimately show ?thesis
    by (simp only: np_div.simps not_False_eq_True if_True)
qed

lemma nan_tail:
  assumes "np_mul (np_div (Fin (8.314 / 1000)) H) (np_log q) = NaN"
  shows "np_sub (np_div (Fin 1)
            (np_sub a (np_mul (np_div (Fin (8.314 / 1000)) H) (np_log q)))) (Fin 273.15) = NaN"
  unfolding assms by (cases a) (simp_all add: np_sub_def)














text \<open>
  C3, as stated, fails: the result for a pressure at or below zero need not be finite.
  For \<open>P = -5\<close>, \<open>P2 = 1e-9\<close>, \<open>T2 = 100\<close> and \<open>H_vap = 1e-320\<close> the
  denominator is not zero, yet \<open>R / H_vap\<close> overflows and the result is \<open>nan\<close>.
\<close>

theorem clamping_nan_counterexample:
  "calculate_new_boiling_point (Fin (- 5)) (Fin (1 / 10 ^ 9)) (Fin 100) (Fin (1 / 10 ^ 320)) = NaN"
proof -
  have big: "fin 1 = Fin 1"
    by (rule fin_small) simp
  have q: "np_div (np_clip_min (Fin (- 5)) (Fin (1 / 10 ^ 9))) (Fin (1 / 10 ^ 9)) = Fin 1"
    by (simp add: big)
  have "np_mul (np_div (Fin (8.314 / 1000)) (Fin (1 / 10 ^ 320)))
          (np_log (np_div (np_clip_min (Fin (- 5)) (Fin (1 / 10 ^ 9))) (Fin (1 / 10 ^ 9)))) = NaN"
    unfolding q enthalpy_overflow by (simp add: inf_of_sign_def)
  then show ?thesis
    unfolding calculate_new_boiling_point_def Let_def by (rule nan_tail)
qed

text \<open>
  C3, amended. Clamping: for every pressure at or below zero, and whatever the record,
  the clamped pressure is the floor \<open>1e-9\<close>, so the result is the result at
  \<open>1e-9\<close>. Inside the working range, with the bracketed denominator at least
  \<open>1e-6\<close> away from zero, that result is a finite number (neither an infinity nor
  \<open>nan\<close>), and no division there has a zero divisor.
\<close>

theorem clamping_to_floor:
  assumes "P \<le> 0"
  shows "calculate_new_boiling_point (Fin P) (Fin P2) (Fin T2) (Fin H_vap) =
           calculate_new_boiling_point (Fin (1 / 10 ^ 9)) (Fin P2) (Fin T2) (Fin H_vap) \<and>
         (working_range P P2 T2 H_vap \<longrightarrow> 1 / 10 ^ 6 \<le> \<bar>bracket P P2 T2 H_vap\<bar> \<longrightarrow>
            isfinite (calculate_new_boiling_point (Fin P) (Fin P2) (Fin T2) (Fin H_vap)))"
proof (intro conjI impI)
  have "np_clip_min (Fin P) (Fin (1 / 10 ^ 9)) = np_clip_min (Fin (1 / 10 ^ 9)) (Fin (1 / 10 ^ 9))"
    using assms by (simp add: max_def)
  then show "calculate_new_boiling_point (Fin P) (Fin P2) (Fin T2) (Fin H_vap) =
           calculate_new_boiling_point (Fin (1 / 10 ^ 9)) (Fin P2) (Fin T2) (Fin H_vap)"
    by (simp only: calculate_new_boiling_point_def Let_def)
next
  assume "working_range P P2 T2 H_vap" and "1 / 10 ^ 6 \<le> \<bar>bracket P P2 T2 H_vap\<bar>"
  then have "calculate_new_boiling_point (Fin P) (Fin P2) (Fin T2) (Fin H_vap) =
          Fin (clausius_clapeyron P P2 T2 H_vap)"
    by (rule calculate_in_working_range)
  then show "isfinite (calculate_new_boiling_point (Fin P) (Fin P2) (Fin T2) (Fin H_vap))"
    by simp
qed

theorem clamping_to_floor_witness:
  "(- 5::real) \<le> 0 \<and> working_range (- 5) 760 100 40.65 \<and>
   1 / 10 ^ 6 \<le> \<bar>bracket (- 5) 760 100 40.65\<bar> \<and>
   calculate_new_boiling_point (Fin (- 5)) (Fin 760) (Fin 100) (Fin 40.65) =
     calculate_new_boiling_point (Fin (1 / 10 ^ 9)) (Fin 760) (Fin 100) (Fin 40.65) \<and>
   isfinite (calculate_new_boiling_point (Fin (- 5)) (Fin 760) (Fin 100) (Fin 40.65))"
proof -
  have h: "(- 5::real) \<le> 0"
    by simp
  have w: "working_range (- 5) 760 100 40.65"
    by (simp add: working_range_def)
  have "1 / (100 + 273.15) \<le> bracket (- 5) 760 100 40.65"
    by (rule bracket_below_reference) (simp_all add: clamp_def)
  moreover have "(1::real) / 10 ^ 6 \<le> 1 / (100 + 273.15)"
    by simp
  ultimately have "1 / 10 ^ 6 \<le> bracket (- 5) 760 100 40.65"
    by (rule order_trans [rotated])
  then have m: "1 / 10 ^ 6 \<le> \<bar>bracket (- 5) 760 100 40.65\<bar>"
    by (rule order_trans) (rule abs_ge_self)
  from clamping_to_floor [OF h, of 760 100 "40.65"] h w m show ?thesis
    by blast
qed




section \<open>Properties of the sampling\<close>

lemma linspace_map:
  assumes "2 \<le> num"
  shows "linspace a b num =
           Inr (map (\<lambda>i. a + real i * ((b - a) / real (nat num - 1))) [0..<nat num])"
proof -
  let ?n = "nat num"
  let ?s = "(b - a) / real (?n - 1)"
  let ?ys = "map (\<lambda>i. a + real i * ?s) [0..<?n]"
  have n: "2 \<le> ?n"
    using assms by simp
  have dv: "real_of_int (num - 1) = real (?n - 1)"
    using assms by (simp add: of_nat_diff)
  have nz: "real (?n - 1) \<noteq> 0"
    using n by simp
  have scaled: "(if ?s = 0 then map (\<lambda>v. v / real (?n - 1) * (b - a)) (map real [0..<?n])
                 else map (\<lambda>v. v * ?s) (map real [0..<?n])) =
                map (\<lambda>v. v * ?s) (map real [0..<?n])"
    using nz by auto
  have shifted: "map (\<lambda>v. v + a) (map (\<lambda>v. v * ?s) (map real [0..<?n])) = ?ys"
    by (simp add: add.commute)
  have "?ys ! (?n - 1) = b"
    using n nz by simp
  then have endpoint: "?ys[?n - 1 := b] = ?ys"
    by (metis list_update_id)
  have c: "\<not> num < 0" "0 < num - 1" "1 < num"
    using assms by simp_all
  have "linspace a b num =
          Inr ((map (\<lambda>v. v + a)
                 (if ?s = 0 then map (\<lambda>v. v / real (?n - 1) * (b - a)) (map real [0..<?n])
                  else map (\<lambda>v. v * ?s) (map real [0..<?n])))[?n - 1 := b])"
    unfolding linspace_def Let_def dv using c by (simp only: if_True if_False)
  then show ?thesis
    by (simp only: scaled shifted endpoint)
qed

lemma linspace_length: "0 \<le> num \<Longrightarrow> \<exists>ys. linspace a b num = Inr ys \<and> length ys = nat num"
  by (simp add: linspace_def Let_def)

lemma short_sorted_wrt: "length xs \<le> 1 \<Longrightarrow> sorted_wrt R xs"
  by (cases xs) auto

lemma linspace_ordered:
  assumes "0 \<le> num" and "linspace a b num = Inr ys"
  shows "(a \<le> b \<longrightarrow> sorted ys) \<and> (a < b \<longrightarrow> sorted_wrt (<) ys)"
proof (cases "2 \<le> num")
  case True
  let ?s = "(b - a) / real (nat num - 1)"
  let ?f = "\<lambda>i. a + real i * ?s"
  have ys: "ys = map ?f [0..<nat num]"
    using linspace_map [OF True, of a b] assms(2) by simp
  have pos: "0 < real (nat num - 1)"
    using True by simp
  have up: "sorted_wrt (<) [0..<nat num]"
    by simp
  have weak: "sorted ys" if le: "a \<le> b"
  proof -
    have s0: "0 \<le> ?s"
      using le pos by simp
    have "sorted_wrt (\<lambda>i j. ?f i \<le> ?f j) [0..<nat num]"
    proof (rule sorted_wrt_mono_rel [OF _ up])
      fix i j :: nat
      assume "i < j"
      then have "real i \<le> real j"
        by simp
      then have "real i * ?s \<le> real j * ?s"
        using s0 by (rule mult_right_mono)
      then show "?f i \<le> ?f j"
        by (simp only: add_le_cancel_left)
    qed
    then show ?thesis
      unfolding ys by (simp only: sorted_wrt_map)
  qed
  have strict: "sorted_wrt (<) ys" if less: "a < b"
  proof -
    have s0: "0 < ?s"
      using less pos by simp
    have "sorted_wrt (\<lambda>i j. ?f i < ?f j) [0..<nat num]"
    proof (rule sorted_wrt_mono_rel [OF _ up])
      fix i j :: nat
      assume "i < j"
      then have "real i < real j"
        by simp
      then have "real i * ?s < real j * ?s"
        using s0 by (rule mult_strict_right_mono)
      then show "?f i < ?f j"
        by (simp only: add_less_cancel_left)
    qed
    then show ?thesis
      unfolding ys by (simp only: sorted_wrt_map)
  qed
  from weak strict show ?thesis
    by blast
next
  case False
  with assms linspace_length [OF assms(1), of a b] have "length ys \<le> 1"
    by auto
  then show ?thesis
    by (simp add: short_sorted_wrt)
qed


lemma generateCurve_Inr:
  assumes "linspace a b num = Inr ys"
  shows "\<exists>c. generateCurve a b num props = Inr c \<and> map fst c = ys \<and> length c = length ys"
  using assms by (cases props) (simp add: generateCurve_def Let_def)

lemma linspace_ends:
  assumes "2 \<le> num" and "linspace a b num = Inr ys"
  shows "length ys = nat num \<and> hd ys = a \<and> last ys = b"
proof -
  let ?n = "nat num"
  let ?f = "\<lambda>i. a + real i * ((b - a) / real (?n - 1))"
  have ys: "ys = map ?f [0..<?n]"
    using linspace_map [OF assms(1), of a b] assms(2) by simp
  have n: "2 \<le> ?n"
    using assms(1) by simp
  have len: "length ys = ?n"
    by (simp add: ys)
  have ne: "ys \<noteq> []"
    using len n by auto
  have nth: "ys ! i = ?f i" if "i < ?n" for i
    using that by (simp add: ys)
  have "hd ys = ys ! 0"
    using ne by (rule hd_conv_nth)
  also have "\<dots> = a"
    using n by (simp add: nth)
  finally have h: "hd ys = a" .
  have "last ys = ys ! (?n - 1)"
    using ne len by (simp add: last_conv_nth)
  also have "\<dots> = b"
    using n by (simp add: nth)
  finally have l: "last ys = b" .
  from len h l show ?thesis
    by simp
qed


text \<open>
  C5. Curve cardinality and endpoints: the curve from \<open>1.0\<close> to \<open>760.0\<close> with
  \<open>1000\<close> samples, for any compound, has exactly \<open>1000\<close> points, its first pressure
  is \<open>1.0\<close>, its last pressure is \<open>760.0\<close>, and its pressures are strictly
  increasing.
\<close>

theorem curve_cardinality_endpoints:
  "\<exists>c. generateCurve 1 760 1000 props = Inr c \<and> length c = 1000 \<and>
       fst (hd c) = 1 \<and> fst (last c) = 760 \<and> sorted_wrt (<) (map fst c)"
proof -
  obtain ys where l: "linspace 1 760 1000 = Inr ys"
    using linspace_length [of 1000 1 760] by auto
  from generateCurve_Inr [OF l, of props]
  obtain c where c: "generateCurve 1 760 1000 props = Inr c" "map fst c = ys" "length c = length ys"
    by blast
  have e: "length ys = 1000" "hd ys = 1" "last ys = 760"
    using linspace_ends [OF _ l] by simp_all
  have ne: "c \<noteq> []"
    using c(3) e(1) by auto
  have h: "fst (hd c) = 1"
    using ne c(2) e(2) by (simp add: hd_map [symmetric])
  have la: "fst (last c) = 760"
    using ne c(2) e(3) by (simp add: last_map [symmetric])
  have "sorted_wrt (<) ys"
    using linspace_ordered [OF _ l] by simp
  then have "sorted_wrt (<) (map fst c)"
    by (simp only: c(2))
  with c(1,3) e(1) h la show ?thesis
    by auto
qed




section \<open>Properties of the lookup\<close>

lemma get_compound_properties_first:
  assumes "\<forall>x \<in> set pre. Item x \<noteq> item_name" and "Item r = item_name"
  shows "get_compound_properties (pre @ r # post) item_name =
           Inr (Vap_Enthalpy r, T2_C r, P2_torr r)"
proof -
  have "filter (\<lambda>x. Item x = item_name) pre = []"
    using assms(1) by (simp add: filter_empty_conv)
  then show ?thesis
    using assms(2) by (simp add: get_compound_properties_def)
qed

lemma get_compound_properties_none:
  assumes "\<forall>x \<in> set df. Item x \<noteq> item_name"
  shows "get_compound_properties df item_name = Inl IndexError"
proof -
  have "filter (\<lambda>x. Item x = item_name) df = []"
    using assms by (simp add: filter_empty_conv)
  then show ?thesis
    by (simp add: get_compound_properties_def)
qed

text \<open>
  C8. Lookup exactness: when some row has exactly the requested name, the lookup returns
  the properties of a row with exactly that name; when no row has it, the lookup fails
  with the \<open>IndexError\<close> of \<open>.iloc[0]\<close> on an empty selection (the failure the
  specification calls NotFoundError). The comparison is equality of strings, so
  \<open>Water\<close> is found in a table that holds it and \<open>water\<close> is not.
\<close>

theorem lookup_exactness:
  "((\<exists>r \<in> set df. Item r = item_name) \<longrightarrow>
      (\<exists>r \<in> set df. Item r = item_name \<and>
         get_compound_properties df item_name = Inr (Vap_Enthalpy r, T2_C r, P2_torr r))) \<and>
   ((\<forall>r \<in> set df. Item r \<noteq> item_name) \<longrightarrow>
      get_compound_properties df item_name = Inl IndexError)"
proof (intro conjI impI)
  assume "\<exists>r \<in> set df. Item r = item_name"
  then obtain pre r post where d: "df = pre @ r # post" and r: "Item r = item_name"
    and pre: "\<forall>x \<in> set pre. Item x \<noteq> item_name"
    by (auto simp: split_list_first_prop_iff)
  have "r \<in> set df"
    by (simp add: d)
  with get_compound_properties_first [OF pre r, of post] r d
  show "\<exists>r \<in> set df. Item r = item_name \<and>
          get_compound_properties df item_name = Inr (Vap_Enthalpy r, T2_C r, P2_torr r)"
    by blast
next
  assume "\<forall>r \<in> set df. Item r \<noteq> item_name"
  then show "get_compound_properties df item_name = Inl IndexError"
    by (rule get_compound_properties_none)
qed

theorem lookup_exactness_witness:
  "get_compound_properties
     [\<lparr>Item = ''Ethanol'', Vap_Enthalpy = Fin 38.56, T2_C = Fin 78.37, P2_torr = Fin 760\<rparr>,
      \<lparr>Item = ''Water'', Vap_Enthalpy = Fin 40.65, T2_C = Fin 100, P2_torr = Fin 760\<rparr>]
     ''Water'' = Inr (Fin 40.65, Fin 100, Fin 760) \<and>
   get_compound_properties
     [\<lparr>Item = ''Ethanol'', Vap_Enthalpy = Fin 38.56, T2_C = Fin 78.37, P2_torr = Fin 760\<rparr>,
      \<lparr>Item = ''Water'', Vap_Enthalpy = Fin 40.65, T2_C = Fin 100, P2_torr = Fin 760\<rparr>]
     ''water'' = Inl IndexError"
  using
    lookup_exactness [of
      "[\<lparr>Item = ''Ethanol'', Vap_Enthalpy = Fin 38.56, T2_C = Fin 78.37, P2_torr = Fin 760\<rparr>,
        \<lparr>Item = ''Water'', Vap_Enthalpy = Fin 40.65, T2_C = Fin 100, P2_torr = Fin 760\<rparr>]"
      "''Water''"]
    lookup_exactness [of
      "[\<lparr>Item = ''Ethanol'', Vap_Enthalpy = Fin 38.56, T2_C = Fin 78.37, P2_torr = Fin 760\<rparr>,
        \<lparr>Item = ''Water'', Vap_Enthalpy = Fin 40.65, T2_C = Fin 100, P2_torr = Fin 760\<rparr>]"
      "''water''"]
  by simp

text \<open>
  C10. Duplicate names: the lookup returns the properties of the first row, in the order
  of the table, whose \<open>Item\<close> equals the requested name; whatever follows that row,
  further rows of the same name included, is ignored and nothing fails.
\<close>

theorem first_match_wins:
  assumes "df = pre @ r # post"
    and "\<forall>x \<in> set pre. Item x \<noteq> item_name"
    and "Item r = item_name"
  shows "get_compound_properties df item_name = Inr (Vap_Enthalpy r, T2_C r, P2_torr r)"
  unfolding assms(1) using assms(2,3) by (rule get_compound_properties_first)

theorem first_match_wins_witness:
  "get_compound_properties
     [\<lparr>Item = ''Ethanol'', Vap_Enthalpy = Fin 38.56, T2_C = Fin 78.37, P2_torr = Fin 760\<rparr>,
      \<lparr>Item = ''Water'', Vap_Enthalpy = Fin 40.65, T2_C = Fin 100, P2_torr = Fin 760\<rparr>,
      \<lparr>Item = ''Water'', Vap_Enthalpy = Fin 44, T2_C = Fin 25, P2_torr = Fin 23.8\<rparr>]
     ''Water'' = Inr (Fin 40.65, Fin 100, Fin 760)"
  using first_match_wins [of
      "[\<lparr>Item = ''Ethanol'', Vap_Enthalpy = Fin 38.56, T2_C = Fin 78.37, P2_torr = Fin 760\<rparr>,
        \<lparr>Item = ''Water'', Vap_Enthalpy = Fin 40.65, T2_C = Fin 100, P2_torr = Fin 760\<rparr>,
        \<lparr>Item = ''Water'', Vap_Enthalpy = Fin 44, T2_C = Fin 25, P2_torr = Fin 23.8\<rparr>]"
      "[\<lparr>Item = ''Ethanol'', Vap_Enthalpy = Fin 38.56, T2_C = Fin 78.37, P2_torr = Fin 760\<rparr>]"
      "\<lparr>Item = ''Water'', Vap_Enthalpy = Fin 40.65, T2_C = Fin 100, P2_torr = Fin 760\<rparr>"
      "[\<lparr>Item = ''Water'', Vap_Enthalpy = Fin 44, T2_C = Fin 25, P2_torr = Fin 23.8\<rparr>]"
      "''Water''"]
  by simp

end
